theory Spec2Isabelle
  imports Main "HOL-Library.AList"
begin

section \<open>Strings, characters and errors\<close>

text \<open>
  Python strings are modelled as HOL strings: a character is a code point below 256
  (ASCII and the Latin-1 supplement).  The regular-expression classes \<^verbatim>\<open>\w\<close> and
  \<^verbatim>\<open>\W\<close> are those of Python 3 for a \<^verbatim>\<open>str\<close> pattern compiled without
  \<^verbatim>\<open>re.ASCII\<close>: a word character is an ASCII letter, an ASCII digit, the
  underscore, or a letter or number of Unicode beyond ASCII.
\<close>

definition squote :: char where
  "squote = CHR 0x27"

definition dquote :: char where
  "dquote = CHR 0x22"

definition newline :: char where
  "newline = CHR 0x0A"

definition ascii_lowercase :: string where
  "ascii_lowercase = ''abcdefghijklmnopqrstuvwxyz''"

definition ascii_uppercase :: string where
  "ascii_uppercase = ''ABCDEFGHIJKLMNOPQRSTUVWXYZ''"

definition digits :: string where
  "digits = ''0123456789''"

definition word_chars :: string where
  "word_chars = ascii_lowercase @ ascii_uppercase @ digits @ ''_''"

text \<open>
  The word characters between U+0080 and U+00FF: the ordinal indicators, the
  superscript digits, the micro sign, the vulgar fractions and the letters (all of
  U+00C0 to U+00FF but the multiplication and the division sign).
\<close>

definition unicode_word_char :: "char \<Rightarrow> bool" where
  "unicode_word_char c =
     (of_char c \<in> {0xAA :: nat} \<union> {0xB2..0xB3} \<union> {0xB5} \<union> {0xB9..0xBA} \<union> {0xBC..0xBE} \<union>
                  {0xC0..0xD6} \<union> {0xD8..0xF6} \<union> {0xF8..0xFF})"

text \<open>\<^verbatim>\<open>\w\<close>; its complement is \<^verbatim>\<open>\W\<close>.\<close>

definition is_word_char :: "char \<Rightarrow> bool" where
  "is_word_char c = (c \<in> set word_chars \<or> unicode_word_char c)"

text \<open>\<^verbatim>\<open>s.replace(old, new)\<close> for a one-character \<^verbatim>\<open>old\<close>.\<close>

primrec str_replace :: "char \<Rightarrow> string \<Rightarrow> string \<Rightarrow> string" where
  "str_replace old new [] = []"
| "str_replace old new (c # cs) =
     (if c = old then new @ str_replace old new cs else c # str_replace old new cs)"

text \<open>\<^verbatim>\<open>sep.join(xs)\<close>.\<close>

fun str_join :: "string \<Rightarrow> string list \<Rightarrow> string" where
  "str_join sep [] = []"
| "str_join sep [x] = x"
| "str_join sep (x # y # ys) = x @ sep @ str_join sep (y # ys)"

section \<open>String-like values and errors\<close>

text \<open>
  \<^verbatim>\<open>Variable\<close>: the name is normalised on construction by
  \<^verbatim>\<open>re.sub('\W', '_', name)\<close>; equality and hash are those of the name.
\<close>

datatype variable = Variable (var_name: string)

definition Variable_init :: "string \<Rightarrow> variable" where
  "Variable_init n = Variable (map (\<lambda>c. if is_word_char c then c else CHR ''_'') n)"

text \<open>\<^verbatim>\<open>var(v)\<close> takes a name or a \<^verbatim>\<open>Variable\<close>.\<close>

datatype var_arg = VName string | VObj variable

fun var :: "var_arg \<Rightarrow> variable" where
  "var (VObj v) = v"
| "var (VName n) = Variable_init n"

text \<open>
  The values \<^verbatim>\<open>Writer.write\<close> dispatches on, after \<^verbatim>\<open>safe_str.safe_str\<close>:
  a plain string, \<^verbatim>\<open>safe_str.literal\<close>, \<^verbatim>\<open>safe_str.shell_literal\<close>,
  \<^verbatim>\<open>safe_str.jbos\<close> with its \<^verbatim>\<open>bits\<close>, a \<^verbatim>\<open>Variable\<close> (whose
  \<^verbatim>\<open>_safe_str\<close> is the literal \<^verbatim>\<open>${name}\<close>) and a \<^verbatim>\<open>path.Path\<close>.  The module
  \<^verbatim>\<open>path\<close> is not part of the sources at hand, so a path carries the two results of
  \<^verbatim>\<open>realize(path_vars, shelly)\<close>: for \<^verbatim>\<open>shelly = False\<close> and for
  \<^verbatim>\<open>shelly = True\<close>.
\<close>

datatype safe_string =
    Str string
  | Literal string
  | ShellLiteral string
  | Jbos "safe_string list"
  | VarUse variable
  | PathObj safe_string safe_string

text \<open>
  Every error below but the last is a \<^verbatim>\<open>ValueError\<close> in the source; the
  constructors tell the raise sites (and their messages) apart.  The error for a
  duplicate output carries the output as formatted into the message.
\<close>

datatype error =
    IllegalNewline
  | UnknownSyntax
  | ExpectedCommand
  | UnknownPool string
  | InvalidRuleName
  | RuleExists string
  | VariableExists variable
  | UnknownRule string
  | BuildExists string
  | NoClosingQuotation
  | NotImplementedError

definition bindE :: "error + 'a \<Rightarrow> ('a \<Rightarrow> error + 'b) \<Rightarrow> error + 'b" where
  "bindE m f = (case m of Inl e \<Rightarrow> Inl e | Inr x \<Rightarrow> f x)"

section \<open>shell/posix.py\<close>

text \<open>\<^verbatim>\<open>_bad_chars = re.compile(r'[^\w@%+:,./-]')\<close>\<close>

definition bad_char :: "char \<Rightarrow> bool" where
  "bad_char c = (\<not> (is_word_char c \<or> c \<in> set ''@%+:,./-''))"

definition bad_chars_search :: "string \<Rightarrow> bool" where
  "bad_chars_search s = list_ex bad_char s"

definition escape :: "string \<Rightarrow> string \<times> bool" where
  "escape s =
     (if s = [] then ([], False)
      else if \<not> bad_chars_search s then (s, False)
      else (str_replace squote [squote, dquote, squote, dquote, squote] s, True))"

definition quote_escaped :: "string \<Rightarrow> bool \<Rightarrow> string" where
  "quote_escaped s escaped = (if escaped then [squote] @ s @ [squote] else s)"

definition quote :: "string \<Rightarrow> string" where
  "quote s = (case escape s of (s', esc) \<Rightarrow> quote_escaped s' esc)"

definition quote_info :: "string \<Rightarrow> string \<times> bool" where
  "quote_info s = (case escape s of (s', esc) \<Rightarrow> (quote_escaped s' esc, esc))"

definition join :: "string list \<Rightarrow> string" where
  "join args = str_join '' '' (map quote args)"

text \<open>
  The safe set as the specification writes it, \<^verbatim>\<open>[A-Za-z0-9_@%+:,./-]\<close>, for
  comparison with the class \<^verbatim>\<open>_bad_chars\<close> of the code.
\<close>

definition spec_safe_set :: string where
  "spec_safe_set = ascii_uppercase @ ascii_lowercase @ digits @ ''_@%+:,./-''"

subsection \<open>The tokenizer behind \<^verbatim>\<open>split\<close>\<close>

text \<open>
  \<^verbatim>\<open>split\<close> runs the standard library's \<^verbatim>\<open>shlex\<close> lexer with
  \<^verbatim>\<open>posix=True\<close>, \<^verbatim>\<open>commenters = ''\<close>, \<^verbatim>\<open>escape = ''\<close> and
  \<^verbatim>\<open>whitespace_split = True\<close>.  The model follows \<^verbatim>\<open>shlex.read_token\<close> of
  CPython under these settings: the lexer state is \<^verbatim>\<open>' '\<close> (between tokens),
  \<^verbatim>\<open>'a'\<close> (in a word), one of the two quote characters, or \<^verbatim>\<open>None\<close> (past the
  end of the input).  With no comment and no escape characters those branches never
  fire; with \<^verbatim>\<open>whitespace_split\<close> every character that is neither whitespace
  nor a quote is handled as a word character.
\<close>

datatype lex_state = StSpace | StWord | StQuote char | StEof

record shlex =
  instream :: string
  state :: lex_state

definition whitespace :: string where
  "whitespace = [CHR '' '', CHR 0x09, CHR 0x0D, CHR 0x0A]"

definition quotes :: string where
  "quotes = [squote, dquote]"

text \<open>
  The \<^verbatim>\<open>while True\<close> loop of \<^verbatim>\<open>read_token\<close>: the arguments are the lexer
  state, the local flag \<^verbatim>\<open>quoted\<close>, the token collected so far and the unread
  input; a \<^verbatim>\<open>break\<close> returns the token, the flag, the state and the rest of the
  input.
\<close>

fun read_token_loop ::
  "lex_state \<Rightarrow> bool \<Rightarrow> string \<Rightarrow> string \<Rightarrow> error + (string \<times> bool \<times> lex_state \<times> string)"
where
  "read_token_loop StEof quoted token inp = Inr ([], quoted, StEof, drop 1 inp)"
| "read_token_loop StSpace quoted token [] = Inr (token, quoted, StEof, [])"
| "read_token_loop StSpace quoted token (c # cs) =
     (if c \<in> set whitespace then
        (if token \<noteq> [] \<or> quoted then Inr (token, quoted, StSpace, cs)
         else read_token_loop StSpace quoted token cs)
      else if c \<in> set quotes then read_token_loop (StQuote c) quoted token cs
      else read_token_loop StWord quoted [c] cs)"
| "read_token_loop (StQuote q) quoted token [] = Inl NoClosingQuotation"
| "read_token_loop (StQuote q) quoted token (c # cs) =
     (if c = q then read_token_loop StWord True token cs
      else read_token_loop (StQuote q) True (token @ [c]) cs)"
| "read_token_loop StWord quoted token [] = Inr (token, quoted, StEof, [])"
| "read_token_loop StWord quoted token (c # cs) =
     (if c \<in> set whitespace then
        (if token \<noteq> [] \<or> quoted then Inr (token, quoted, StSpace, cs)
         else read_token_loop StSpace quoted token cs)
      else if c \<in> set quotes then read_token_loop (StQuote c) quoted token cs
      else read_token_loop StWord quoted (token @ [c]) cs)"

text \<open>
  \<^verbatim>\<open>read_token\<close>: the token starts empty and \<^verbatim>\<open>quoted\<close> false; an empty
  unquoted result is \<^verbatim>\<open>None\<close>, the end-of-file marker in POSIX mode.
\<close>

definition read_token :: "shlex \<Rightarrow> error + (string option \<times> shlex)" where
  "read_token lx =
     (case read_token_loop (state lx) False [] (instream lx) of
        Inl e \<Rightarrow> Inl e
      | Inr (result, quoted, st, rest) \<Rightarrow>
          Inr (if \<not> quoted \<and> result = [] then None else Some result,
               \<lparr>instream = rest, state = st\<rparr>))"

lemma read_token_loop_length:
  "read_token_loop st quoted token inp = Inr (result, quoted', st', rest)
   \<Longrightarrow> length rest \<le> length inp \<and>
       (length rest = length inp \<longrightarrow> inp = [] \<and> result = (if st = StEof then [] else token)
          \<and> quoted' = quoted)"
proof (induction st quoted token inp rule: read_token_loop.induct)
  case (1 quoted token inp)
  then show ?case by (cases inp) auto
qed (auto split: if_splits)

lemma read_token_consumes:
  assumes "read_token lx = Inr (Some t, lx')"
  shows "length (instream lx') < length (instream lx)"
proof -
  obtain result quoted st rest where
    loop: "read_token_loop (state lx) False [] (instream lx) = Inr (result, quoted, st, rest)"
    and res: "\<not> (\<not> quoted \<and> result = [])" and lx': "lx' = \<lparr>instream = rest, state = st\<rparr>"
    using assms by (auto simp: read_token_def split: sum.splits prod.splits if_splits)
  from read_token_loop_length [OF loop] res have "length rest < length (instream lx)"
    by (cases "length rest = length (instream lx)") (auto split: if_splits)
  with lx' show ?thesis by simp
qed

text \<open>\<^verbatim>\<open>list(lexer)\<close>: tokens are read until the end-of-file marker.\<close>

function tokens :: "shlex \<Rightarrow> error + string list" where
  "tokens lx =
     (case read_token lx of
        Inl e \<Rightarrow> Inl e
      | Inr (None, lx') \<Rightarrow> Inr []
      | Inr (Some t, lx') \<Rightarrow>
          (case tokens lx' of Inl e \<Rightarrow> Inl e | Inr ts \<Rightarrow> Inr (t # ts)))"
  by pat_completeness auto
termination
  by (relation "measure (\<lambda>lx. length (instream lx))") (auto dest: read_token_consumes)

declare tokens.simps [simp del]

definition split :: "string \<Rightarrow> error + string list" where
  "split s = tokens \<lparr>instream = s, state = StSpace\<rparr>"


text \<open>
  One line of a command: a list of arguments, a \<^verbatim>\<open>shell.shell_list\<close> of
  arguments (the class is not part of the sources at hand; it is a kind of list), or
  one string-like value, which is not iterable.  Then \<^verbatim>\<open>global_env\<close>, which
  makes an \<^verbatim>\<open>export\<close> line of every binding of the environment.
\<close>

datatype 'a cmdline = ArgList "'a list" | ShellList "'a list" | Scalar safe_string

definition global_env :: "(safe_string \<times> safe_string) list \<Rightarrow> safe_string cmdline list" where
  "global_env env =
     map (\<lambda>(name, val). ArgList [Str ''export'', Jbos [name, ShellLiteral ''='', val]]) env"

section \<open>iterutils.py\<close>

text \<open>
  \<^verbatim>\<open>tween\<close> is a generator; the model returns the list of what it yields.  The
  loop carries the flag \<^verbatim>\<open>first\<close>.
\<close>

fun tween_loop :: "bool \<Rightarrow> 'a list \<Rightarrow> 'a \<Rightarrow> 'a option \<Rightarrow> 'a list \<times> bool" where
  "tween_loop first [] delim prefix = ([], first)"
| "tween_loop first (i # rest) delim prefix =
     (case tween_loop False rest delim prefix of
        (ys, first') \<Rightarrow>
          ((if first then (case prefix of None \<Rightarrow> [] | Some p \<Rightarrow> [p]) else [delim]) @ i # ys,
           first'))"

definition tween :: "'a list \<Rightarrow> 'a \<Rightarrow> 'a option \<Rightarrow> 'a option \<Rightarrow> 'a list" where
  "tween iterable delim prefix suffix =
     (case tween_loop True iterable delim prefix of
        (ys, first) \<Rightarrow>
          ys @ (case suffix of None \<Rightarrow> [] | Some sfx \<Rightarrow> if \<not> first then [sfx] else []))"

definition join_commands :: "safe_string cmdline list \<Rightarrow> safe_string cmdline list" where
  "join_commands cmds = tween cmds (Scalar (ShellLiteral '' && '')) None None"

section \<open>backends/ninja/syntax.py: the writer\<close>

datatype syntax_kind = Syntax_output | Syntax_input | Syntax_shell | Syntax_clean

datatype section_kind = Section_path | Section_command | Section_flags | Section_other

text \<open>
  \<^verbatim>\<open>re.sub(r'([...])', r'$\1', string)\<close> for a class of single characters: every
  character of the class gets a dollar sign in front.
\<close>

primrec re_sub_dollar :: "string \<Rightarrow> string \<Rightarrow> string" where
  "re_sub_dollar cls [] = []"
| "re_sub_dollar cls (c # cs) =
     (if c \<in> set cls then CHR ''$'' # c # re_sub_dollar cls cs else c # re_sub_dollar cls cs)"

definition escape_str :: "string \<Rightarrow> syntax_kind \<Rightarrow> error + string" where
  "escape_str string syn =
     (if newline \<in> set string then Inl IllegalNewline
      else if syn = Syntax_output then Inr (re_sub_dollar '':$ '' string)
      else if syn = Syntax_input then Inr (re_sub_dollar ''$ '' string)
      else if syn \<in> set [Syntax_shell, Syntax_clean] then Inr (str_replace CHR ''$'' ''$$'' string)
      else Inl UnknownSyntax)"

text \<open>
  \<^verbatim>\<open>Writer.write\<close> appends to a stream and returns the flag \<^verbatim>\<open>escaped\<close>; the
  model returns the appended text with the flag.  \<^verbatim>\<open>shell_quote\<close> is
  \<^verbatim>\<open>shell.quote_info\<close>, \<^verbatim>\<open>shell.escape\<close> or \<^verbatim>\<open>None\<close>.
\<close>

fun writer_write :: "safe_string \<Rightarrow> syntax_kind \<Rightarrow> (string \<Rightarrow> string \<times> bool) option \<Rightarrow> error + (string \<times> bool)"
  and write_bits ::
    "safe_string list \<Rightarrow> syntax_kind \<Rightarrow> (string \<Rightarrow> string \<times> bool) option \<Rightarrow> error + (string \<times> bool)"
where
  "writer_write (Literal s) syn shell_quote = Inr (s, True)"
| "writer_write (VarUse v) syn shell_quote = Inr (''${'' @ var_name v @ ''}'', True)"
| "writer_write (ShellLiteral s) syn shell_quote =
     (case escape_str s syn of Inl e \<Rightarrow> Inl e | Inr t \<Rightarrow> Inr (t, True))"
| "writer_write (Str s) syn shell_quote =
     (case (case shell_quote of
              Some q \<Rightarrow> if syn = Syntax_shell then q s else (s, False)
            | None \<Rightarrow> (s, False)) of
        (thing, escaped) \<Rightarrow>
          (case escape_str thing syn of Inl e \<Rightarrow> Inl e | Inr t \<Rightarrow> Inr (t, escaped)))"
| "writer_write (Jbos bits) syn shell_quote = write_bits bits syn shell_quote"
| "writer_write (PathObj plain shelly) syn shell_quote =
     (case writer_write (if syn = Syntax_shell then shelly else plain) syn (Some escape) of
        Inl e \<Rightarrow> Inl e
      | Inr (thing, escaped) \<Rightarrow>
          Inr (if syn = Syntax_shell \<and> escaped then quote_escaped thing True else thing,
               escaped))"
| "write_bits [] syn shell_quote = Inr ([], False)"
| "write_bits (i # rest) syn shell_quote =
     (case writer_write i syn shell_quote of
        Inl e \<Rightarrow> Inl e
      | Inr (t, escaped) \<Rightarrow>
          (case write_bits rest syn shell_quote of
             Inl e \<Rightarrow> Inl e
           | Inr (ts, escaped') \<Rightarrow> Inr (t @ ts, escaped \<or> escaped')))"

text \<open>The loop of \<^verbatim>\<open>write_each\<close>, with the default \<^verbatim>\<open>shell_quote\<close>.\<close>

primrec write_seq :: "safe_string list \<Rightarrow> syntax_kind \<Rightarrow> error + string" where
  "write_seq [] syn = Inr []"
| "write_seq (i # rest) syn =
     bindE (writer_write i syn (Some quote_info)) (\<lambda>(t, _). bindE (write_seq rest syn) (\<lambda>ts. Inr (t @ ts)))"

definition write_each ::
  "safe_string list \<Rightarrow> syntax_kind \<Rightarrow> safe_string \<Rightarrow> safe_string option \<Rightarrow> safe_string option
   \<Rightarrow> error + string"
where
  "write_each things syn delim prefix suffix = write_seq (tween things delim prefix suffix) syn"

section \<open>backends/ninja/syntax.py: commands\<close>

record 'a commands_obj =
  commands :: "'a cmdline list"
  environ :: "(safe_string \<times> safe_string) list"

text \<open>
  \<^verbatim>\<open>Commands.__init__\<close>; \<^verbatim>\<open>environ\<close> is \<^verbatim>\<open>None\<close> or a mapping, kept as an
  association list.
\<close>

definition Commands_init ::
  "'a cmdline list \<Rightarrow> (safe_string \<times> safe_string) list option \<Rightarrow> error + 'a commands_obj"
where
  "Commands_init cmds env =
     (if cmds = [] then Inl ExpectedCommand
      else Inr \<lparr>commands = cmds, environ = (case env of None \<Rightarrow> [] | Some e \<Rightarrow> e)\<rparr>)"

fun isiterable :: "'a cmdline \<Rightarrow> bool" where
  "isiterable (ArgList _) = True"
| "isiterable (ShellList _) = True"
| "isiterable (Scalar _) = False"

fun is_shell_list :: "'a cmdline \<Rightarrow> bool" where
  "is_shell_list (ShellList _) = True"
| "is_shell_list _ = False"

definition needs_shell :: "'a commands_obj \<Rightarrow> error + bool" where
  "needs_shell c =
     (case commands c of
        [] \<Rightarrow> Inl ExpectedCommand
      | first # _ \<Rightarrow>
          Inr (length (environ c) > 0 \<or> length (commands c) > 1 \<or>
               is_shell_list first \<or> \<not> isiterable first))"

text \<open>\<^verbatim>\<open>Writer.write_shell\<close> on one line of a command, in the default syntax.\<close>

fun write_shell_line :: "safe_string cmdline \<Rightarrow> error + string" where
  "write_shell_line (ArgList things) = write_each things Syntax_shell (Literal '' '') None None"
| "write_shell_line (ShellList things) = write_each things Syntax_shell (Literal '' '') None None"
| "write_shell_line (Scalar thing) = bindE (writer_write thing Syntax_shell None) (\<lambda>(t, _). Inr t)"

primrec write_shell_lines :: "safe_string cmdline list \<Rightarrow> error + string" where
  "write_shell_lines [] = Inr []"
| "write_shell_lines (line # rest) =
     bindE (write_shell_line line) (\<lambda>t. bindE (write_shell_lines rest) (\<lambda>ts. Inr (t @ ts)))"

text \<open>
  \<^verbatim>\<open>Commands.use\<close>; the first argument says whether \<^verbatim>\<open>platform_name()\<close> is
  \<^verbatim>\<open>'windows'\<close>.
\<close>

definition use :: "bool \<Rightarrow> safe_string commands_obj \<Rightarrow> error + string" where
  "use windows c =
     bindE (needs_shell c) (\<lambda>shell.
     bindE (write_shell_lines (join_commands (global_env (environ c) @ commands c))) (\<lambda>body.
       Inr ((if shell \<and> windows then ''cmd /s /c '' @ [dquote] else []) @ body @
            (if shell \<and> windows then [dquote] else []))))"

text \<open>
  What a variable or a rule holds and \<^verbatim>\<open>write_shell\<close> renders: an iterable of
  string-like values, one string-like value, or a \<^verbatim>\<open>Commands\<close> object.
\<close>

datatype shell_value =
    VList "safe_string list"
  | VScalar safe_string
  | VCommands "safe_string commands_obj"

fun write_shell :: "bool \<Rightarrow> shell_value \<Rightarrow> syntax_kind \<Rightarrow> error + string" where
  "write_shell windows (VList things) syn = write_each things syn (Literal '' '') None None"
| "write_shell windows (VScalar thing) syn = bindE (writer_write thing syn None) (\<lambda>(t, _). Inr t)"
| "write_shell windows (VCommands c) syn = use windows c"


section \<open>backends/ninja/syntax.py: the build file\<close>

record rule_rec =
  r_command :: shell_value
  r_depfile :: "safe_string option"
  r_deps :: "safe_string option"
  r_generator :: bool
  r_pool :: "string option"
  r_restat :: bool

record build_rec =
  b_outputs :: "safe_string list"
  b_rule :: string
  b_inputs :: "safe_string list"
  b_implicit :: "safe_string list"
  b_order_only :: "safe_string list"
  b_variables :: "(variable \<times> shell_value) list"

text \<open>
  The state of a \<^verbatim>\<open>NinjaFile\<close>.  The type \<^typ>\<open>'v\<close> stands for
  \<^verbatim>\<open>versioning.Version\<close>, which is not part of the sources at hand: the functions
  below ask for a linear order on it, receive versions already constructed, and take
  \<^verbatim>\<open>Version('1.5')\<close> and \<^verbatim>\<open>str\<close> on versions as arguments where the source
  uses them.  \<^verbatim>\<open>_rules\<close> is an \<^verbatim>\<open>OrderedDict\<close>, kept as an association list
  in insertion order.
\<close>

record 'v ninja_file =
  nf_bfgfile :: string
  nf_min_version :: "'v option"
  nf_var_table :: "variable set"
  nf_variables :: "section_kind \<Rightarrow> (variable \<times> shell_value) list"
  nf_rules :: "(string \<times> rule_rec) list"
  nf_builds :: "build_rec list"
  nf_build_outputs :: "safe_string set"
  nf_defaults :: "safe_string list"

definition NinjaFile_init :: "string \<Rightarrow> 'v ninja_file" where
  "NinjaFile_init bfgfile =
     \<lparr>nf_bfgfile = bfgfile, nf_min_version = None, nf_var_table = {},
      nf_variables = (\<lambda>_. []), nf_rules = [], nf_builds = [], nf_build_outputs = {},
      nf_defaults = []\<rparr>"

text \<open>
  A method that mutates the file returns its result, or the error it raises, together
  with the file as the call leaves it.
\<close>

definition min_version :: "'v::linorder \<Rightarrow> 'v ninja_file \<Rightarrow> 'v ninja_file" where
  "min_version version f =
     (case nf_min_version f of
        None \<Rightarrow> f\<lparr>nf_min_version := Some version\<rparr>
      | Some cur \<Rightarrow> if version > cur then f\<lparr>nf_min_version := Some version\<rparr> else f)"

definition has_variable :: "'v ninja_file \<Rightarrow> var_arg \<Rightarrow> bool" where
  "has_variable f name = (var name \<in> nf_var_table f)"

definition variable ::
  "'v ninja_file \<Rightarrow> var_arg \<Rightarrow> shell_value \<Rightarrow> section_kind \<Rightarrow> bool
   \<Rightarrow> (error + variable) \<times> 'v ninja_file"
where
  "variable f name val sect exist_ok =
     (let name' = var name in
      if has_variable f (VObj name') then
        (if \<not> exist_ok then (Inl (VariableExists name'), f) else (Inr name', f))
      else
        (Inr name',
         f\<lparr>nf_var_table := insert name' (nf_var_table f),
           nf_variables := (nf_variables f)(sect := nf_variables f sect @ [(name', val)])\<rparr>))"

text \<open>
  An argument of a command line before \<^verbatim>\<open>convert_args\<close>: a string-like value, or
  a tool object (\<^verbatim>\<open>tools.common.Command\<close>) with its \<^verbatim>\<open>command_var\<close> and
  \<^verbatim>\<open>command\<close>.
\<close>

datatype arg = Plain safe_string | Tool string shell_value

definition cmd_var :: "'v ninja_file \<Rightarrow> string \<Rightarrow> shell_value \<Rightarrow> (error + variable) \<times> 'v ninja_file"
where
  "cmd_var f command_var command = variable f (VName command_var) command Section_command True"

text \<open>
  Modelled from the spec: \<^verbatim>\<open>Command.convert_args\<close> of \<^verbatim>\<open>tools/common.py\<close>, which
  is not part of the sources at hand.  It replaces every tool object in the argument
  list with the converter's substitution (here \<^verbatim>\<open>cmd_var\<close>, which declares the
  tool's variable in the file) and leaves the other arguments untouched.
\<close>

fun convert_arg_list :: "'v ninja_file \<Rightarrow> arg list \<Rightarrow> (error + safe_string list) \<times> 'v ninja_file"
where
  "convert_arg_list f [] = (Inr [], f)"
| "convert_arg_list f (Plain t # rest) =
     (case convert_arg_list f rest of
        (Inl e, f') \<Rightarrow> (Inl e, f')
      | (Inr ts, f') \<Rightarrow> (Inr (t # ts), f'))"
| "convert_arg_list f (Tool cv c # rest) =
     (case cmd_var f cv c of
        (Inl e, f') \<Rightarrow> (Inl e, f')
      | (Inr v, f') \<Rightarrow>
          (case convert_arg_list f' rest of
             (Inl e, f'') \<Rightarrow> (Inl e, f'')
           | (Inr ts, f'') \<Rightarrow> (Inr (VarUse v # ts), f'')))"

text \<open>\<^verbatim>\<open>Commands.convert_args\<close> with \<^verbatim>\<open>conv = self.cmd_var\<close>.\<close>

fun convert_line :: "'v ninja_file \<Rightarrow> arg cmdline \<Rightarrow> (error + safe_string cmdline) \<times> 'v ninja_file"
where
  "convert_line f (ArgList args) =
     (case convert_arg_list f args of
        (Inl e, f') \<Rightarrow> (Inl e, f') | (Inr ts, f') \<Rightarrow> (Inr (ArgList ts), f'))"
| "convert_line f (ShellList args) =
     (case convert_arg_list f args of
        (Inl e, f') \<Rightarrow> (Inl e, f') | (Inr ts, f') \<Rightarrow> (Inr (ShellList ts), f'))"
| "convert_line f (Scalar t) = (Inr (Scalar t), f)"

fun convert_lines ::
  "'v ninja_file \<Rightarrow> arg cmdline list \<Rightarrow> (error + safe_string cmdline list) \<times> 'v ninja_file"
where
  "convert_lines f [] = (Inr [], f)"
| "convert_lines f (l # rest) =
     (case convert_line f l of
        (Inl e, f') \<Rightarrow> (Inl e, f')
      | (Inr l', f') \<Rightarrow>
          (case convert_lines f' rest of
             (Inl e, f'') \<Rightarrow> (Inl e, f'')
           | (Inr ls, f'') \<Rightarrow> (Inr (l' # ls), f'')))"

definition has_rule :: "'v ninja_file \<Rightarrow> string \<Rightarrow> bool" where
  "has_rule f name = (name \<in> fst ` set (nf_rules f))"

text \<open>
  Modelled from the spec: \<^verbatim>\<open>objutils.objectify\<close>, which is not part of the sources
  at hand.  In \<^verbatim>\<open>objectify(command, Commands, in_type=object)\<close> the command is
  resolved through the command model: a \<^verbatim>\<open>Commands\<close> object is taken as it is, and
  anything else is handed to \<^verbatim>\<open>Commands(...)\<close> as its list of command lines.
\<close>

datatype command_arg = CommandsObj "arg commands_obj" | CommandLines "arg cmdline list"

definition objectify_Commands :: "command_arg \<Rightarrow> error + arg commands_obj" where
  "objectify_Commands thing =
     (case thing of CommandsObj c \<Rightarrow> Inr c | CommandLines ls \<Rightarrow> Commands_init ls None)"

text \<open>
  \<^verbatim>\<open>NinjaFile.rule\<close>; the first argument is \<^verbatim>\<open>Version('1.5')\<close>.  A rule that has
  no need of a shell keeps the first command line itself, which is then an argument
  list.
\<close>

definition rule ::
  "'v::linorder \<Rightarrow> 'v ninja_file \<Rightarrow> string \<Rightarrow> command_arg \<Rightarrow> safe_string option
   \<Rightarrow> safe_string option \<Rightarrow> bool \<Rightarrow> string option \<Rightarrow> bool \<Rightarrow> (error + unit) \<times> 'v ninja_file"
where
  "rule v1_5 f name command depfile deps generator pool restat =
     (case objectify_Commands command of
        Inl e \<Rightarrow> (Inl e, f)
      | Inr c \<Rightarrow>
     (case convert_lines f (commands c) of
        (Inl e, f1) \<Rightarrow> (Inl e, f1)
      | (Inr ls, f1) \<Rightarrow>
     (let c' = \<lparr>commands = ls, environ = environ c\<rparr> in
      case needs_shell c' of
        Inl e \<Rightarrow> (Inl e, f1)
      | Inr shell \<Rightarrow>
     (let command' =
            (if shell then VCommands c'
             else (case ls of ArgList ts # _ \<Rightarrow> VList ts | _ \<Rightarrow> VCommands c'))
      in
      case (case pool of
              None \<Rightarrow> Inr f1
            | Some p \<Rightarrow> if p = ''console'' then Inr (min_version v1_5 f1) else Inl (UnknownPool p)) of
        Inl e \<Rightarrow> (Inl e, f1)
      | Inr f2 \<Rightarrow>
          if list_ex (\<lambda>ch. \<not> is_word_char ch) name then (Inl InvalidRuleName, f2)
          else if has_rule f2 name then (Inl (RuleExists name), f2)
          else
            (Inr (),
             f2\<lparr>nf_rules := nf_rules f2 @
                  [(name, \<lparr>r_command = command', r_depfile = depfile, r_deps = deps,
                           r_generator = generator, r_pool = pool, r_restat = restat\<rparr>)]\<rparr>)))))"

definition has_build :: "'v ninja_file \<Rightarrow> safe_string \<Rightarrow> bool" where
  "has_build f name = (name \<in> nf_build_outputs f)"

text \<open>
  \<^verbatim>\<open>'{}'.format(i)\<close> on an output, which is \<^verbatim>\<open>str(i)\<close>: a string is
  itself, and \<^verbatim>\<open>Variable.__str__\<close> raises \<^verbatim>\<open>NotImplementedError\<close>.  The other
  string-like classes belong to \<^verbatim>\<open>safe_str\<close> and \<^verbatim>\<open>path\<close>, which are not part
  of the sources at hand: their \<^verbatim>\<open>str\<close> is the argument \<^verbatim>\<open>str_obj\<close>.
\<close>

fun format_output :: "(safe_string \<Rightarrow> error + string) \<Rightarrow> safe_string \<Rightarrow> error + string" where
  "format_output str_obj (Str s) = Inr s"
| "format_output str_obj (VarUse v) = Inl NotImplementedError"
| "format_output str_obj i = str_obj i"

text \<open>
  What \<^verbatim>\<open>raise ValueError("build for '{}' already exists".format(i))\<close> raises:
  the message is formatted first.
\<close>

definition build_exists_error :: "(safe_string \<Rightarrow> error + string) \<Rightarrow> safe_string \<Rightarrow> error" where
  "build_exists_error str_obj i =
     (case format_output str_obj i of Inl e \<Rightarrow> e | Inr msg \<Rightarrow> BuildExists msg)"

text \<open>
  The loop of \<^verbatim>\<open>NinjaFile.build\<close> over the outputs: each output is checked and then
  added to \<^verbatim>\<open>_build_outputs\<close>, before the next one is looked at.
\<close>

fun register_outputs ::
  "(safe_string \<Rightarrow> error + string) \<Rightarrow> safe_string list \<Rightarrow> 'v ninja_file
   \<Rightarrow> (error + unit) \<times> 'v ninja_file"
where
  "register_outputs str_obj [] f = (Inr (), f)"
| "register_outputs str_obj (i # rest) f =
     (if has_build f i then (Inl (build_exists_error str_obj i), f)
      else register_outputs str_obj rest (f\<lparr>nf_build_outputs := insert i (nf_build_outputs f)\<rparr>))"

text \<open>
  The dictionary comprehension \<^verbatim>\<open>{var(k): v for k, v in iteritems(variables or {})}\<close>:
  a key seen again keeps its place and takes the later value.
\<close>

definition build_variables :: "(var_arg \<times> shell_value) list \<Rightarrow> (variable \<times> shell_value) list" where
  "build_variables vars = foldl (\<lambda>acc (k, v). AList.update (var k) v acc) [] vars"

text \<open>
  \<^verbatim>\<open>NinjaFile.build\<close>; the lists are the arguments after \<^verbatim>\<open>iterutils.listify\<close>
  (\<^verbatim>\<open>None\<close> is the empty list, a scalar the list of itself).  The first argument
  is \<^verbatim>\<open>str\<close> on the string-like classes, as in \<^verbatim>\<open>format_output\<close>.
\<close>

definition build ::
  "(safe_string \<Rightarrow> error + string) \<Rightarrow> 'v ninja_file \<Rightarrow> safe_string list \<Rightarrow> string \<Rightarrow> safe_string list \<Rightarrow> safe_string list
   \<Rightarrow> safe_string list \<Rightarrow> (var_arg \<times> shell_value) list \<Rightarrow> (error + unit) \<times> 'v ninja_file"
where
  "build str_obj f outputs rule_name inputs implicit order_only variables =
     (if rule_name \<noteq> ''phony'' \<and> \<not> has_rule f rule_name then (Inl (UnknownRule rule_name), f)
      else
        (case register_outputs str_obj outputs f of
           (Inl e, f') \<Rightarrow> (Inl e, f')
         | (Inr u, f') \<Rightarrow>
             (Inr (),
              f'\<lparr>nf_builds := nf_builds f' @
                   [\<lparr>b_outputs = outputs, b_rule = rule_name, b_inputs = inputs,
                     b_implicit = implicit, b_order_only = order_only,
                     b_variables = build_variables variables\<rparr>]\<rparr>)))"

definition default :: "'v ninja_file \<Rightarrow> safe_string list \<Rightarrow> 'v ninja_file" where
  "default f paths = f\<lparr>nf_defaults := nf_defaults f @ paths\<rparr>"


section \<open>backends/ninja/syntax.py: serialization\<close>

text \<open>The truth value Python gives an optional string-like value or an optional string.\<close>

fun truthy :: "safe_string option \<Rightarrow> bool" where
  "truthy None = False"
| "truthy (Some (Str s)) = (s \<noteq> [])"
| "truthy (Some _) = True"

definition write_variable ::
  "bool \<Rightarrow> variable \<Rightarrow> shell_value \<Rightarrow> syntax_kind \<Rightarrow> nat \<Rightarrow> error + string"
where
  "write_variable windows name val syn indent =
     bindE (write_shell windows val syn) (\<lambda>t.
       Inr (concat (replicate indent ''  '') @ var_name name @ '' = '' @ t @ [newline]))"

definition write_rule :: "bool \<Rightarrow> string \<Rightarrow> rule_rec \<Rightarrow> error + string" where
  "write_rule windows name r =
     bindE (write_variable windows (var (VName ''command'')) (r_command r) Syntax_shell 1) (\<lambda>t1.
     bindE (case r_depfile r of
              Some d \<Rightarrow> if truthy (Some d)
                        then write_variable windows (var (VName ''depfile'')) (VScalar d) Syntax_shell 1
                        else Inr []
            | None \<Rightarrow> Inr []) (\<lambda>t2.
     bindE (case r_deps r of
              Some d \<Rightarrow> if truthy (Some d)
                        then write_variable windows (var (VName ''deps'')) (VScalar d) Syntax_shell 1
                        else Inr []
            | None \<Rightarrow> Inr []) (\<lambda>t3.
     bindE (if r_generator r
            then write_variable windows (var (VName ''generator'')) (VScalar (Str ''1'')) Syntax_shell 1
            else Inr []) (\<lambda>t4.
     bindE (case r_pool r of
              Some p \<Rightarrow> if p \<noteq> []
                        then write_variable windows (var (VName ''pool'')) (VScalar (Str p)) Syntax_shell 1
                        else Inr []
            | None \<Rightarrow> Inr []) (\<lambda>t5.
     bindE (if r_restat r
            then write_variable windows (var (VName ''restat'')) (VScalar (Str ''1'')) Syntax_shell 1
            else Inr []) (\<lambda>t6.
       Inr (''rule '' @ name @ [newline] @ t1 @ t2 @ t3 @ t4 @ t5 @ t6)))))))"

primrec write_variables ::
  "bool \<Rightarrow> (variable \<times> shell_value) list \<Rightarrow> syntax_kind \<Rightarrow> nat \<Rightarrow> error + string"
where
  "write_variables windows [] syn indent = Inr []"
| "write_variables windows (kv # rest) syn indent =
     bindE (write_variable windows (fst kv) (snd kv) syn indent) (\<lambda>t.
     bindE (write_variables windows rest syn indent) (\<lambda>ts. Inr (t @ ts)))"

definition write_build :: "bool \<Rightarrow> build_rec \<Rightarrow> error + string" where
  "write_build windows b =
     bindE (write_each (b_outputs b) Syntax_output (Literal '' '') None None) (\<lambda>outs.
     bindE (write_each (b_inputs b) Syntax_input (Literal '' '') (Some (Literal '' '')) None) (\<lambda>ins.
     bindE (write_each (b_implicit b) Syntax_input (Literal '' '') (Some (Literal '' | '')) None) (\<lambda>imp.
     bindE (write_each (b_order_only b) Syntax_input (Literal '' '') (Some (Literal '' || '')) None) (\<lambda>ord.
     bindE (write_variables windows (b_variables b) Syntax_shell 1) (\<lambda>vars.
       Inr (''build '' @ outs @ '': '' @ b_rule b @ ins @ imp @ ord @ [newline] @ vars))))))"

definition comment_tmpl :: "string \<Rightarrow> string" where
  "comment_tmpl bfgfile =
     ''# Do not edit this file! It was automatically generated by bfg9000.'' @ [newline] @
     ''# Instead, you should edit the source file that created this:'' @ [newline] @
     ''# '' @ bfgfile"

definition write_section :: "bool \<Rightarrow> 'v ninja_file \<Rightarrow> section_kind \<Rightarrow> error + string" where
  "write_section windows f sect =
     bindE (write_variables windows (nf_variables f sect)
              (if sect = Section_path then Syntax_clean else Syntax_shell) 0) (\<lambda>t.
       Inr (t @ (if nf_variables f sect \<noteq> [] then [newline] else [])))"

primrec write_rules :: "bool \<Rightarrow> (string \<times> rule_rec) list \<Rightarrow> error + string" where
  "write_rules windows [] = Inr []"
| "write_rules windows (nr # rest) =
     bindE (write_rule windows (fst nr) (snd nr)) (\<lambda>t.
     bindE (write_rules windows rest) (\<lambda>ts. Inr (t @ [newline] @ ts)))"

primrec write_builds :: "bool \<Rightarrow> build_rec list \<Rightarrow> error + string" where
  "write_builds windows [] = Inr []"
| "write_builds windows (b # rest) =
     bindE (write_build windows b) (\<lambda>t.
     bindE (write_builds windows rest) (\<lambda>ts. Inr (t @ [newline] @ ts)))"

text \<open>
  \<^verbatim>\<open>NinjaFile.write\<close>: the text written to the stream, or the error raised on the
  way.  The arguments are the platform test and \<^verbatim>\<open>str\<close> on versions.
\<close>

definition NinjaFile_write :: "bool \<Rightarrow> ('v \<Rightarrow> string) \<Rightarrow> 'v ninja_file \<Rightarrow> error + string" where
  "NinjaFile_write windows version_str f =
     bindE (case nf_min_version f of
              None \<Rightarrow> Inr []
            | Some v \<Rightarrow>
                bindE (write_variable windows (var (VName ''ninja_required_version''))
                         (VScalar (Str (version_str v))) Syntax_shell 0) (\<lambda>t. Inr (t @ [newline])))
       (\<lambda>ver.
     bindE (write_section windows f Section_path) (\<lambda>s1.
     bindE (write_section windows f Section_command) (\<lambda>s2.
     bindE (write_section windows f Section_flags) (\<lambda>s3.
     bindE (write_section windows f Section_other) (\<lambda>s4.
     bindE (write_rules windows (nf_rules f)) (\<lambda>rs.
     bindE (write_builds windows (nf_builds f)) (\<lambda>bs.
     bindE (if nf_defaults f \<noteq> []
            then bindE (write_each (nf_defaults f) Syntax_input (Literal '' '') None None)
                   (\<lambda>t. Inr (''default '' @ t @ [newline]))
            else Inr []) (\<lambda>ds.
       Inr (comment_tmpl (nf_bfgfile f) @ [newline, newline] @ ver @ s1 @ s2 @ s3 @ s4 @
            rs @ bs @ ds)))))))))"


section \<open>Scenarios\<close>

text \<open>
  The command \<^verbatim>\<open>["cc", "-c", "$in", "-o", "$out"]\<close> handed to \<^verbatim>\<open>rule\<close> as it is:
  \<^verbatim>\<open>Commands\<close> takes the list as its list of command lines, five strings.
\<close>

definition cc_command :: command_arg where
  "cc_command =
     CommandLines [Scalar (Str ''cc''), Scalar (Str ''-c''), Scalar (Str ''$in''),
                   Scalar (Str ''-o''), Scalar (Str ''$out'')]"

text \<open>The same command handed over as a list of one command line.\<close>

definition cc_command_line :: command_arg where
  "cc_command_line =
     CommandLines [ArgList [Plain (Str ''cc''), Plain (Str ''-c''), Plain (Str ''$in''),
                            Plain (Str ''-o''), Plain (Str ''$out'')]]"

text \<open>
  Rule \<^verbatim>\<open>cc\<close> declared with a command, then the edge from \<^verbatim>\<open>main.c\<close> to
  \<^verbatim>\<open>main.o\<close>.
\<close>

definition cc_file ::
  "(safe_string \<Rightarrow> error + string) \<Rightarrow> 'v::linorder \<Rightarrow> string \<Rightarrow> command_arg \<Rightarrow> 'v ninja_file"
where
  "cc_file str_obj v1_5 bfgfile command =
     snd (build str_obj
            (snd (rule v1_5 (NinjaFile_init bfgfile) ''cc'' command None None False None False))
            [Str ''main.o''] ''cc'' [Str ''main.c''] [] [] [])"

text \<open>
  One reading of \<^verbatim>\<open>str\<close> on the string-like classes, for the concrete cases: it
  raises, as it does on a \<^verbatim>\<open>Variable\<close>.
\<close>

definition raising_str :: "safe_string \<Rightarrow> error + string" where
  "raising_str i = Inl NotImplementedError"


text \<open>A file in which the variable \<^verbatim>\<open>cflags\<close> is declared.\<close>

definition var_file :: "nat ninja_file" where
  "var_file =
     snd (variable (NinjaFile_init ''build.bfg'') (VName ''cflags'') (VScalar (Str ''-O2''))
            Section_flags False)"

section \<open>Properties of the escaping functions\<close>

lemma re_sub_dollar_map:
  "re_sub_dollar cls s = concat (map (\<lambda>c. if c \<in> set cls then [CHR ''$'', c] else [c]) s)"
  by (induction s) simp_all

lemma str_replace_map:
  "str_replace old new s = concat (map (\<lambda>c. if c = old then new else [c]) s)"
  by (induction s) simp_all

text \<open>
  Claim C4, as the code has it.  For a string without a newline, \<^verbatim>\<open>escape_str\<close>
  puts a dollar sign before every colon, space and dollar sign in output position,
  before every space and dollar sign (and not before a colon) in input position, and
  doubles every dollar sign in shell position.  In the fourth mode,
  \<^verbatim>\<open>Syntax.clean\<close>, it does the same as in shell position: dollar signs are doubled
  there too.
\<close>

theorem escape_str_modes:
  assumes "newline \<notin> set s"
  shows "escape_str s Syntax_output =
           Inr (concat (map (\<lambda>c. if c = CHR '':'' \<or> c = CHR ''$'' \<or> c = CHR '' ''
                                   then [CHR ''$'', c] else [c]) s))
       \<and> escape_str s Syntax_input =
           Inr (concat (map (\<lambda>c. if c = CHR ''$'' \<or> c = CHR '' ''
                                   then [CHR ''$'', c] else [c]) s))
       \<and> escape_str s Syntax_shell =
           Inr (concat (map (\<lambda>c. if c = CHR ''$'' then ''$$'' else [c]) s))
       \<and> escape_str s Syntax_clean = escape_str s Syntax_shell"
  using assms by (simp add: escape_str_def re_sub_dollar_map str_replace_map)

theorem escape_str_modes_witness:
  "newline \<notin> set ''a:b $c''
   \<and> escape_str ''a:b $c'' Syntax_output = Inr ''a$:b$ $$c''
   \<and> escape_str ''a:b $c'' Syntax_input = Inr ''a:b$ $$c''
   \<and> escape_str ''a:b $c'' Syntax_shell = Inr ''a:b $$c''
   \<and> escape_str ''a:b $c'' Syntax_clean = Inr ''a:b $$c''"
proof -
  have h: "newline \<notin> set ''a:b $c''" by (simp add: newline_def)
  show ?thesis using h escape_str_modes [OF h] by simp
qed

text \<open>
  Claim C4 as stated fails in the fourth mode: the one-character string \<^verbatim>\<open>$\<close> has no
  newline and is not returned unchanged.
\<close>

theorem escape_str_clean_counterexample:
  "newline \<notin> set ''$'' \<and> escape_str ''$'' Syntax_clean = Inr ''$$'' \<and>
   escape_str ''$'' Syntax_clean \<noteq> Inr ''$''"
  by (simp add: escape_str_def newline_def)

section \<open>Properties of shell quoting\<close>

lemma unicode_word_char_not_ascii: "unicode_word_char c \<Longrightarrow> \<not> of_char c < (128 :: nat)"
  by (auto simp: unicode_word_char_def)

lemma spec_safe_set_ascii: "c \<in> set spec_safe_set \<Longrightarrow> of_char c < (128 :: nat)"
  by (auto simp: spec_safe_set_def ascii_uppercase_def ascii_lowercase_def digits_def)

lemma bad_char_iff: "bad_char c \<longleftrightarrow> c \<notin> set spec_safe_set \<and> \<not> unicode_word_char c"
  by (auto simp: bad_char_def is_word_char_def word_chars_def spec_safe_set_def)

lemma bad_char_ascii: "of_char c < (128 :: nat) \<Longrightarrow> bad_char c \<longleftrightarrow> c \<notin> set spec_safe_set"
  by (auto simp: bad_char_iff dest: unicode_word_char_not_ascii)

text \<open>
  Claim C5, as the code has it.  For a string of ASCII characters, \<^verbatim>\<open>quote_info\<close>
  reports that the string requires quoting exactly when it is non-empty and holds a
  character outside the safe set.  For any string, it does so exactly when the string
  is non-empty and holds a character that is outside the safe set and is not a word
  character beyond ASCII.  When quoting is required the result is the string with
  every single quote replaced by the five characters \<^verbatim>\<open>'"'"'\<close>, wrapped in single
  quotes.  A string of safe characters comes back unchanged and unquoted, and so does
  the empty string.  \<^verbatim>\<open>quote\<close> returns the same text.
\<close>

theorem quote_info_spec:
  "((\<forall>c\<in>set s. of_char c < (128 :: nat)) \<longrightarrow>
      (snd (quote_info s) \<longleftrightarrow> s \<noteq> [] \<and> (\<exists>c\<in>set s. c \<notin> set spec_safe_set)))
   \<and> (snd (quote_info s) \<longleftrightarrow>
        s \<noteq> [] \<and> (\<exists>c\<in>set s. c \<notin> set spec_safe_set \<and> \<not> unicode_word_char c))
   \<and> (snd (quote_info s) \<longrightarrow>
        fst (quote_info s) =
          [CHR 0x27] @
          concat (map (\<lambda>c. if c = CHR 0x27 then [CHR 0x27, CHR 0x22, CHR 0x27, CHR 0x22, CHR 0x27]
                            else [c]) s) @
          [CHR 0x27])
   \<and> ((\<forall>c\<in>set s. c \<in> set spec_safe_set) \<longrightarrow> quote_info s = (s, False))
   \<and> quote_info [] = ([], False)
   \<and> quote s = fst (quote_info s)"
proof -
  have search: "bad_chars_search s \<longleftrightarrow>
                  (\<exists>c\<in>set s. c \<notin> set spec_safe_set \<and> \<not> unicode_word_char c)"
    by (simp add: bad_chars_search_def list_ex_iff bad_char_iff)
  have search_ascii: "bad_chars_search s \<longleftrightarrow> (\<exists>c\<in>set s. c \<notin> set spec_safe_set)"
    if "\<forall>c\<in>set s. of_char c < (128 :: nat)"
    using that by (auto simp: bad_chars_search_def list_ex_iff bad_char_ascii)
  have flag: "snd (quote_info s) \<longleftrightarrow> s \<noteq> [] \<and> bad_chars_search s"
    by (auto simp: quote_info_def escape_def)
  have "(\<forall>c\<in>set s. of_char c < (128 :: nat)) \<longrightarrow>
      (snd (quote_info s) \<longleftrightarrow> s \<noteq> [] \<and> (\<exists>c\<in>set s. c \<notin> set spec_safe_set))"
    using search_ascii by (simp add: flag)
  moreover have "snd (quote_info s) \<longleftrightarrow>
        s \<noteq> [] \<and> (\<exists>c\<in>set s. c \<notin> set spec_safe_set \<and> \<not> unicode_word_char c)"
    by (simp add: flag search)
  moreover have "snd (quote_info s) \<longrightarrow>
        fst (quote_info s) =
          [CHR 0x27] @
          concat (map (\<lambda>c. if c = CHR 0x27 then [CHR 0x27, CHR 0x22, CHR 0x27, CHR 0x22, CHR 0x27]
                            else [c]) s) @
          [CHR 0x27]"
    by (simp add: quote_info_def escape_def quote_escaped_def str_replace_map squote_def dquote_def)
  moreover have "(\<forall>c\<in>set s. c \<in> set spec_safe_set) \<longrightarrow> quote_info s = (s, False)"
    by (auto simp: quote_info_def escape_def quote_escaped_def search)
  moreover have "quote_info [] = ([], False)"
    by (simp add: quote_info_def escape_def quote_escaped_def)
  moreover have "quote s = fst (quote_info s)"
    by (simp add: quote_def quote_info_def split: prod.splits)
  ultimately show ?thesis by blast
qed

theorem quote_info_spec_witness:
  "quote_info [CHR ''i'', CHR ''t'', CHR 0x27, CHR ''s''] =
     ([CHR 0x27, CHR ''i'', CHR ''t'', CHR 0x27, CHR 0x22, CHR 0x27, CHR 0x22, CHR 0x27, CHR ''s'',
       CHR 0x27], True)"
proof -
  have ascii: "\<forall>c\<in>set [CHR ''i'', CHR ''t'', CHR 0x27, CHR ''s'']. of_char c < (128 :: nat)"
    by simp
  have bad: "[CHR ''i'', CHR ''t'', CHR 0x27, CHR ''s''] \<noteq> [] \<and>
             (\<exists>c\<in>set [CHR ''i'', CHR ''t'', CHR 0x27, CHR ''s'']. c \<notin> set spec_safe_set)"
    by (simp add: spec_safe_set_def ascii_lowercase_def ascii_uppercase_def digits_def)
  show ?thesis
    using ascii bad quote_info_spec [of "[CHR ''i'', CHR ''t'', CHR 0x27, CHR ''s'']"]
    by (simp add: prod_eq_iff)
qed

text \<open>
  Claim C5 as stated fails beyond ASCII: the one-character string of U+00E9 (the
  letter e with an acute accent) is non-empty and its character is outside the safe
  set, yet the string is a word for \<^verbatim>\<open>\w\<close> and comes back unchanged and unquoted.
\<close>

theorem quote_info_counterexample:
  "[CHR 0xE9] \<noteq> [] \<and> CHR 0xE9 \<notin> set spec_safe_set \<and> quote_info [CHR 0xE9] = ([CHR 0xE9], False)"
proof -
  have "CHR 0xE9 \<notin> set spec_safe_set"
    by (simp add: spec_safe_set_def ascii_lowercase_def ascii_uppercase_def digits_def)
  moreover have "unicode_word_char (CHR 0xE9)"
    by (simp add: unicode_word_char_def)
  then have "quote_info [CHR 0xE9] = ([CHR 0xE9], False)"
    by (simp add: quote_info_def escape_def quote_escaped_def bad_chars_search_def bad_char_def
        is_word_char_def)
  ultimately show ?thesis by simp
qed

section \<open>Splitting what was quoted\<close>

lemma in_squote:
  "read_token_loop (StQuote squote) qd tok
     (str_replace squote [squote, dquote, squote, dquote, squote] s @ squote # rest)
   = read_token_loop StWord True (tok @ s) rest"
  by (induction s arbitrary: tok qd) (auto simp: squote_def dquote_def whitespace_def quotes_def)

lemma in_word:
  "\<forall>c\<in>set w. c \<notin> set whitespace \<and> c \<notin> set quotes \<Longrightarrow>
   read_token_loop StWord qd tok (w @ rest) = read_token_loop StWord qd (tok @ w) rest"
  by (induction w arbitrary: tok) auto

lemma safe_not_special: "\<not> bad_char c \<Longrightarrow> c \<notin> set whitespace \<and> c \<notin> set quotes"
  by (auto simp: bad_char_def is_word_char_def word_chars_def whitespace_def quotes_def
      squote_def dquote_def ascii_lowercase_def ascii_uppercase_def digits_def
      unicode_word_char_def)

lemma loop_quote_eof:
  assumes "s \<noteq> []"
  shows "read_token_loop StSpace False [] (quote s) = Inr (s, bad_chars_search s, StEof, [])"
proof (cases "bad_chars_search s")
  case True
  have "read_token_loop StSpace False [] (quote s)
      = read_token_loop (StQuote squote) False []
          (str_replace squote [squote, dquote, squote, dquote, squote] s @ squote # [])"
    using True assms
    by (simp add: quote_def escape_def quote_escaped_def quotes_def whitespace_def squote_def)
  also have "\<dots> = read_token_loop StWord True ([] @ s) []"
    by (rule in_squote)
  finally show ?thesis using True by simp
next
  case False
  then have safe: "\<forall>c\<in>set s. c \<notin> set whitespace \<and> c \<notin> set quotes"
    by (auto simp: bad_chars_search_def list_ex_iff dest: safe_not_special)
  obtain c cs where s: "s = c # cs" using assms by (cases s) auto
  have "read_token_loop StSpace False [] (quote s) = read_token_loop StWord False [c] (cs @ [])"
    using False safe by (simp add: quote_def escape_def quote_escaped_def s)
  also have "\<dots> = read_token_loop StWord False ([c] @ cs) []"
    using safe by (intro in_word) (simp add: s)
  finally show ?thesis using False by (simp add: s)
qed

lemma loop_quote_space:
  assumes "s \<noteq> []"
  shows "read_token_loop StSpace False [] (quote s @ CHR '' '' # rest)
           = Inr (s, bad_chars_search s, StSpace, rest)"
proof (cases "bad_chars_search s")
  case True
  have "read_token_loop StSpace False [] (quote s @ CHR '' '' # rest)
      = read_token_loop (StQuote squote) False []
          (str_replace squote [squote, dquote, squote, dquote, squote] s @
           squote # CHR '' '' # rest)"
    using True assms
    by (simp add: quote_def escape_def quote_escaped_def quotes_def whitespace_def squote_def)
  also have "\<dots> = read_token_loop StWord True ([] @ s) (CHR '' '' # rest)"
    by (rule in_squote)
  finally show ?thesis using True by (simp add: whitespace_def)
next
  case False
  then have safe: "\<forall>c\<in>set s. c \<notin> set whitespace \<and> c \<notin> set quotes"
    by (auto simp: bad_chars_search_def list_ex_iff dest: safe_not_special)
  obtain c cs where s: "s = c # cs" using assms by (cases s) auto
  have "read_token_loop StSpace False [] (quote s @ CHR '' '' # rest)
          = read_token_loop StWord False [c] (cs @ CHR '' '' # rest)"
    using False safe by (simp add: quote_def escape_def quote_escaped_def s)
  also have "\<dots> = read_token_loop StWord False ([c] @ cs) (CHR '' '' # rest)"
    using safe by (intro in_word) (simp add: s)
  finally show ?thesis using False by (simp add: s whitespace_def)
qed

lemma tokens_eof: "tokens \<lparr>instream = [], state = StEof\<rparr> = Inr []"
  by (simp add: tokens.simps read_token_def)

lemma tokens_empty: "tokens \<lparr>instream = [], state = StSpace\<rparr> = Inr []"
  by (simp add: tokens.simps read_token_def)

lemma tokens_quote:
  "s \<noteq> [] \<Longrightarrow> tokens \<lparr>instream = quote s, state = StSpace\<rparr> = Inr [s]"
  by (subst tokens.simps) (simp add: read_token_def loop_quote_eof tokens_eof)

lemma tokens_skip_space:
  "tokens \<lparr>instream = CHR '' '' # rest, state = StSpace\<rparr>
     = tokens \<lparr>instream = rest, state = StSpace\<rparr>"
  by (subst tokens.simps, subst (2) tokens.simps) (simp add: read_token_def whitespace_def)

lemma quote_empty: "quote [] = []"
  by (simp add: quote_def escape_def quote_escaped_def)

lemma tokens_join:
  "tokens \<lparr>instream = str_join '' '' (map quote args), state = StSpace\<rparr>
     = Inr (filter (\<lambda>a. a \<noteq> []) args)"
proof (induction args rule: induct_list012)
  case 1
  show ?case by (simp add: tokens_empty)
next
  case (2 x)
  then show ?case by (cases "x = []") (simp_all add: tokens_quote quote_empty tokens_empty)
next
  case (3 x y zs)
  show ?case
  proof (cases "x = []")
    case True
    with 3 show ?thesis by (simp add: quote_empty tokens_skip_space)
  next
    case False
    with 3 show ?thesis
      by (subst tokens.simps) (simp add: read_token_def loop_quote_space)
  qed
qed

text \<open>
  Claim C6.  A string that holds a single quote or a space is quoted, and splitting
  its quoted form gives back the list of that one string.
\<close>

theorem split_quote_roundtrip:
  assumes "CHR 0x27 \<in> set s \<or> CHR '' '' \<in> set s"
  shows "split (quote s) = Inr [s]"
proof -
  from assms have "s \<noteq> []" by auto
  then show ?thesis by (simp add: split_def tokens_quote)
qed

theorem split_quote_roundtrip_witness:
  "(CHR 0x27 \<in> set [CHR ''i'', CHR ''t'', CHR 0x27, CHR ''s'', CHR '' '', CHR ''o'']
      \<or> CHR '' '' \<in> set [CHR ''i'', CHR ''t'', CHR 0x27, CHR ''s'', CHR '' '', CHR ''o''])
   \<and> split (quote [CHR ''i'', CHR ''t'', CHR 0x27, CHR ''s'', CHR '' '', CHR ''o''])
       = Inr [[CHR ''i'', CHR ''t'', CHR 0x27, CHR ''s'', CHR '' '', CHR ''o'']]"
proof -
  have h: "CHR 0x27 \<in> set [CHR ''i'', CHR ''t'', CHR 0x27, CHR ''s'', CHR '' '', CHR ''o'']
      \<or> CHR '' '' \<in> set [CHR ''i'', CHR ''t'', CHR 0x27, CHR ''s'', CHR '' '', CHR ''o'']"
    by simp
  show ?thesis using h split_quote_roundtrip [OF h] by simp
qed

text \<open>
  Claim C10.  Joining a list of non-empty strings with shell quoting and splitting the
  result gives back the list.  The strings have to be non-empty: the empty string is
  quoted as the empty text, which yields no token, so splitting gives the list without
  its empty strings, and the list of the empty string comes back as the empty list.
\<close>

theorem split_join_roundtrip:
  "((\<forall>a\<in>set args. a \<noteq> []) \<longrightarrow> split (join args) = Inr args)
   \<and> split (join args) = Inr (filter (\<lambda>a. a \<noteq> []) args)
   \<and> split (join [[]]) = Inr [] \<and> split (join [[]]) \<noteq> Inr [[]]"
proof -
  have all: "split (join xs) = Inr (filter (\<lambda>a. a \<noteq> []) xs)" for xs
    by (simp add: split_def join_def tokens_join)
  have "(\<forall>a\<in>set args. a \<noteq> []) \<longrightarrow> filter (\<lambda>a. a \<noteq> []) args = args"
    by (simp add: filter_id_conv)
  then show ?thesis by (simp add: all)
qed

theorem split_join_roundtrip_witness:
  "split (join [''a b'', ''c'', ''x$y'']) = Inr [''a b'', ''c'', ''x$y'']"
proof -
  have h: "\<forall>a\<in>set [''a b'', ''c'', ''x$y'']. a \<noteq> []" by simp
  show ?thesis using h split_join_roundtrip [of "[''a b'', ''c'', ''x$y'']"] by blast
qed

section \<open>Properties of commands\<close>

lemma Commands_init_nonempty: "Commands_init cmds env = Inr c \<Longrightarrow> commands c \<noteq> []"
  by (auto simp: Commands_init_def split: if_splits)

text \<open>
  Claim C3.  For a \<^verbatim>\<open>Commands\<close> object (its list of command lines is not empty, as
  the constructor ensures), \<^verbatim>\<open>needs_shell\<close> is true exactly when there is more than
  one command line, or the environment is not empty, or the only command line is a
  shell list, or the only command line is not iterable.
\<close>

theorem needs_shell_iff:
  assumes "commands c \<noteq> []"
  shows "needs_shell c =
           Inr (length (commands c) > 1 \<or> environ c \<noteq> [] \<or>
                (\<exists>ts. commands c = [ShellList ts]) \<or> (\<exists>t. commands c = [Scalar t]))"
proof (cases "commands c")
  case Nil
  with assms show ?thesis by simp
next
  case (Cons first rest)
  show ?thesis
    by (cases first; cases rest) (auto simp: needs_shell_def Cons)
qed

theorem needs_shell_iff_witness:
  "needs_shell \<lparr>commands = [ArgList [Str ''cc'', Str ''-c'']], environ = []\<rparr> = Inr False
   \<and> needs_shell \<lparr>commands = [Scalar (Str ''make'') :: safe_string cmdline], environ = []\<rparr> = Inr True
   \<and> needs_shell \<lparr>commands = [ArgList [Str ''cc'']], environ = [(Str ''A'', Str ''b'')]\<rparr> = Inr True"
proof -
  have h1: "commands \<lparr>commands = [ArgList [Str ''cc'', Str ''-c'']], environ = []\<rparr> \<noteq> []"
    and h2: "commands \<lparr>commands = [Scalar (Str ''make'') :: safe_string cmdline], environ = []\<rparr> \<noteq> []"
    and h3: "commands \<lparr>commands = [ArgList [Str ''cc'']], environ = [(Str ''A'', Str ''b'')]\<rparr> \<noteq> []"
    by simp_all
  show ?thesis
    using needs_shell_iff [OF h1] needs_shell_iff [OF h2] needs_shell_iff [OF h3] by simp
qed

section \<open>Properties of the build file\<close>

lemma min_version_field:
  "nf_min_version (min_version v f) =
     Some (case nf_min_version f of None \<Rightarrow> v | Some cur \<Rightarrow> max cur v)"
  by (auto simp: min_version_def max_def split: option.splits)

lemma Max_insert_max:
  fixes a :: "'a::linorder"
  assumes "finite S"
  shows "Max (insert (max a b) S) = max a (Max (insert b S))"
  using assms by (cases "S = {}") (simp_all add: max.assoc)

lemma min_version_calls:
  "nf_min_version (foldl (\<lambda>f v. min_version v f) f vs) =
     (case nf_min_version f of
        None \<Rightarrow> if vs = [] then None else Some (Max (set vs))
      | Some w \<Rightarrow> Some (Max (insert w (set vs))))"
proof (induction vs arbitrary: f)
  case Nil
  show ?case by (simp split: option.splits)
next
  case (Cons v vs)
  show ?case
    by (simp add: Cons.IH min_version_field Max_insert_max split: option.splits)
qed

text \<open>
  Claim C7.  After the calls \<^verbatim>\<open>min_version(v1)\<close>, ..., \<^verbatim>\<open>min_version(vn)\<close> on a
  new file the stored version is the greatest of the arguments; on a file that already
  stores a version it is the greatest of that version and the arguments.  No call
  lowers the stored version.
\<close>

theorem min_version_max:
  fixes vs :: "'v::linorder list"
  shows "(vs \<noteq> [] \<longrightarrow>
            nf_min_version (foldl (\<lambda>f v. min_version v f) (NinjaFile_init b) vs)
              = Some (Max (set vs)))
       \<and> (nf_min_version f = Some w \<longrightarrow>
            nf_min_version (foldl (\<lambda>f v. min_version v f) f vs) = Some (Max (insert w (set vs))))
       \<and> (nf_min_version f = Some w \<longrightarrow>
            (\<exists>w'. nf_min_version (min_version v f) = Some w' \<and> w \<le> w'))"
  by (simp add: min_version_calls min_version_field NinjaFile_init_def)

theorem min_version_max_witness:
  "nf_min_version (foldl (\<lambda>f v. min_version v f) (NinjaFile_init ''build.bfg'') [3, 5, 2 :: nat])
     = Some 5"
proof -
  have h: "[3, 5, 2 :: nat] \<noteq> []" by simp
  show ?thesis using h min_version_max [of "[3, 5, 2 :: nat]" "''build.bfg''"] by simp
qed

text \<open>
  Claim C8.  When the normalised name is already declared, \<^verbatim>\<open>variable\<close> with
  \<^verbatim>\<open>exist_ok=False\<close> raises the already-exists error, and with \<^verbatim>\<open>exist_ok=True\<close>
  it returns the variable of that name, which is the one in the table; in both cases
  the file, and with it the table, is as before.
\<close>

theorem variable_redeclare:
  assumes "has_variable f n"
  shows "variable f n v sect False = (Inl (VariableExists (var n)), f)
       \<and> variable f n v sect True = (Inr (var n), f)
       \<and> var n \<in> nf_var_table f"
  using assms by (simp add: variable_def has_variable_def Let_def)

theorem variable_redeclare_witness:
  "variable var_file (VName ''cflags'') (VScalar (Str ''-O3'')) Section_other False
     = (Inl (VariableExists (Variable ''cflags'')), var_file)
   \<and> variable var_file (VName ''cflags'') (VScalar (Str ''-O3'')) Section_other True
     = (Inr (Variable ''cflags''), var_file)"
proof -
  have v: "Variable_init ''cflags'' = Variable ''cflags''"
    by (simp add: Variable_init_def)
       (simp add: is_word_char_def word_chars_def ascii_lowercase_def)
  have h: "has_variable var_file (VName ''cflags'')"
    by (simp add: var_file_def variable_def has_variable_def NinjaFile_init_def Let_def)
  show ?thesis
    using variable_redeclare [OF h, of "VScalar (Str ''-O3'')" Section_other] by (simp add: v)
qed

text \<open>
  Claim C9.  When the name is already declared, with the value \<^verbatim>\<open>v1\<close> in some
  section, \<^verbatim>\<open>variable\<close> with \<^verbatim>\<open>exist_ok=True\<close> leaves the whole file as it was,
  whatever the new value and section: the value stored stays \<^verbatim>\<open>v1\<close>, and the
  table, the sections, the rules, the edges, the defaults and the version are the same.
\<close>

theorem variable_exist_ok_frame:
  assumes "has_variable f n" and "(var n, v1) \<in> set (nf_variables f s1)"
  shows "snd (variable f n v2 s2 True) = f
       \<and> (var n, v1) \<in> set (nf_variables (snd (variable f n v2 s2 True)) s1)
       \<and> nf_var_table (snd (variable f n v2 s2 True)) = nf_var_table f
       \<and> nf_variables (snd (variable f n v2 s2 True)) = nf_variables f
       \<and> nf_rules (snd (variable f n v2 s2 True)) = nf_rules f
       \<and> nf_builds (snd (variable f n v2 s2 True)) = nf_builds f
       \<and> nf_build_outputs (snd (variable f n v2 s2 True)) = nf_build_outputs f
       \<and> nf_defaults (snd (variable f n v2 s2 True)) = nf_defaults f
       \<and> nf_min_version (snd (variable f n v2 s2 True)) = nf_min_version f"
proof -
  have "snd (variable f n v2 s2 True) = f"
    using assms(1) by (simp add: variable_def has_variable_def Let_def)
  then show ?thesis using assms(2) by simp
qed

theorem variable_exist_ok_frame_witness:
  "snd (variable var_file (VName ''cflags'') (VScalar (Str ''-O3'')) Section_other True) = var_file
   \<and> nf_variables var_file Section_flags = [(Variable ''cflags'', VScalar (Str ''-O2''))]
   \<and> nf_variables var_file Section_other = []"
proof -
  have v: "Variable_init ''cflags'' = Variable ''cflags''"
    by (simp add: Variable_init_def)
       (simp add: is_word_char_def word_chars_def ascii_lowercase_def)
  have vars: "nf_variables var_file Section_flags = [(Variable ''cflags'', VScalar (Str ''-O2''))]"
    "nf_variables var_file Section_other = []"
    by (simp_all add: var_file_def variable_def has_variable_def NinjaFile_init_def Let_def v)
  have h: "has_variable var_file (VName ''cflags'')"
    by (simp add: var_file_def variable_def has_variable_def NinjaFile_init_def Let_def)
  have h2: "(var (VName ''cflags''), VScalar (Str ''-O2'')) \<in> set (nf_variables var_file Section_flags)"
    by (simp add: vars v)
  show ?thesis
    using variable_exist_ok_frame [OF h h2, of "VScalar (Str ''-O3'')" Section_other] vars
    by simp
qed


lemma build_unknown_rule:
  "rule_name \<noteq> ''phony'' \<Longrightarrow> \<not> has_rule f rule_name \<Longrightarrow>
   build str_obj f outputs rule_name inputs implicit order_only variables
     = (Inl (UnknownRule rule_name), f)"
  by (simp add: build_def)

text \<open>
  The message of the error for a duplicate output is formatted with \<^verbatim>\<open>str\<close>, so a
  duplicate output that is a \<^verbatim>\<open>Variable\<close> raises \<^verbatim>\<open>NotImplementedError\<close> in its
  place.
\<close>

lemma build_duplicate_variable:
  "has_build f (VarUse v) \<Longrightarrow>
   build str_obj f [VarUse v] ''phony'' inputs implicit order_only variables
     = (Inl NotImplementedError, f)"
  by (simp add: build_def build_exists_error_def)




section \<open>The end-to-end scenario\<close>

lemma cc_file_flat:
  "rule v1_5 (NinjaFile_init b) ''cc'' cc_command None None False None False =
     (Inr (),
      (NinjaFile_init b)\<lparr>nf_rules :=
        [(''cc'', \<lparr>r_command = VCommands \<lparr>commands =
                      [Scalar (Str ''cc''), Scalar (Str ''-c''), Scalar (Str ''$in''),
                       Scalar (Str ''-o''), Scalar (Str ''$out'')], environ = []\<rparr>,
                   r_depfile = None, r_deps = None, r_generator = False, r_pool = None,
                   r_restat = False\<rparr>)]\<rparr>)"
  by (simp add: rule_def cc_command_def objectify_Commands_def Commands_init_def needs_shell_def
      has_rule_def NinjaFile_init_def)
     (simp add: is_word_char_def word_chars_def ascii_lowercase_def)

lemma cc_file_nested:
  "rule v1_5 (NinjaFile_init b) ''cc'' cc_command_line None None False None False =
     (Inr (),
      (NinjaFile_init b)\<lparr>nf_rules :=
        [(''cc'', \<lparr>r_command = VList [Str ''cc'', Str ''-c'', Str ''$in'', Str ''-o'', Str ''$out''],
                   r_depfile = None, r_deps = None, r_generator = False, r_pool = None,
                   r_restat = False\<rparr>)]\<rparr>)"
  by (simp add: rule_def cc_command_line_def objectify_Commands_def Commands_init_def
      needs_shell_def has_rule_def NinjaFile_init_def)
     (simp add: is_word_char_def word_chars_def ascii_lowercase_def)

lemma cc_build:
  "nf_build_outputs f = {} \<Longrightarrow> has_rule f ''cc'' \<Longrightarrow>
   build str_obj f [Str ''main.o''] ''cc'' [Str ''main.c''] [] [] [] =
     (Inr (),
      f\<lparr>nf_build_outputs := {Str ''main.o''},
        nf_builds := nf_builds f @
          [\<lparr>b_outputs = [Str ''main.o''], b_rule = ''cc'', b_inputs = [Str ''main.c''],
            b_implicit = [], b_order_only = [], b_variables = []\<rparr>]\<rparr>)"
  by (simp add: build_def has_build_def build_variables_def)

lemma write_build_main:
  "write_build w \<lparr>b_outputs = [Str ''main.o''], b_rule = ''cc'', b_inputs = [Str ''main.c''],
                  b_implicit = [], b_order_only = [], b_variables = []\<rparr>
     = Inr (''build main.o: cc main.c'' @ [newline])"
  by (simp add: write_build_def write_each_def tween_def bindE_def escape_str_def newline_def)

lemma write_rule_flat:
  "write_rule w ''cc''
     \<lparr>r_command = VCommands \<lparr>commands =
                      [Scalar (Str ''cc''), Scalar (Str ''-c''), Scalar (Str ''$in''),
                       Scalar (Str ''-o''), Scalar (Str ''$out'')], environ = []\<rparr>,
      r_depfile = None, r_deps = None, r_generator = False, r_pool = None, r_restat = False\<rparr>
   = Inr (''rule cc'' @ [newline] @ ''  command = '' @
          (if w then ''cmd /s /c '' @ [dquote] else []) @
          ''cc && -c && $$in && -o && $$out'' @
          (if w then [dquote] else []) @ [newline])"
  by (simp add: write_rule_def write_variable_def use_def needs_shell_def join_commands_def
      global_env_def tween_def bindE_def escape_str_def newline_def Variable_init_def)
     (simp add: is_word_char_def word_chars_def ascii_lowercase_def)

lemma write_rule_nested:
  "write_rule w ''cc''
     \<lparr>r_command = VList [Str ''cc'', Str ''-c'', Str ''$in'', Str ''-o'', Str ''$out''],
      r_depfile = None, r_deps = None, r_generator = False, r_pool = None, r_restat = False\<rparr>
   = Inr (''rule cc'' @ [newline] @ ''  command = cc -c '' @
          [squote] @ ''$$in'' @ [squote] @ '' -o '' @ [squote] @ ''$$out'' @ [squote] @ [newline])"
  by (simp add: write_rule_def write_variable_def write_each_def tween_def bindE_def
      escape_str_def newline_def squote_def Variable_init_def quote_info_def escape_def
      quote_escaped_def bad_chars_search_def bad_char_def)
     (simp add: is_word_char_def word_chars_def ascii_lowercase_def ascii_uppercase_def digits_def
        unicode_word_char_def)

text \<open>
  Claim C2.  Rule \<^verbatim>\<open>cc\<close> is declared with the command
  \<^verbatim>\<open>["cc", "-c", "$in", "-o", "$out"]\<close>, then the edge with output \<^verbatim>\<open>main.o\<close>, rule
  \<^verbatim>\<open>cc\<close> and input \<^verbatim>\<open>main.c\<close>.  The text written is the header comment and a
  blank line, the line \<^verbatim>\<open>rule cc\<close>, one indented \<^verbatim>\<open>command =\<close> line, one blank
  line, the line \<^verbatim>\<open>build main.o: cc main.c\<close> and a blank line.  This holds on
  every platform, whatever the name of the description file, and also when the
  command is handed over as a list of one command line; only the text after
  \<^verbatim>\<open>command =\<close> differs.
\<close>

theorem cc_scenario_output:
  fixes v1_5 :: "'v::linorder"
  shows "fst (rule v1_5 (NinjaFile_init b) ''cc'' cc_command None None False None False) = Inr ()
       \<and> fst (build str_obj
                 (snd (rule v1_5 (NinjaFile_init b) ''cc'' cc_command None None False None False))
                 [Str ''main.o''] ''cc'' [Str ''main.c''] [] [] []) = Inr ()
       \<and> NinjaFile_write False vstr (cc_file str_obj v1_5 b cc_command) =
           Inr (comment_tmpl b @ [newline] @ [newline] @
                ''rule cc'' @ [newline] @
                ''  command = cc && -c && $$in && -o && $$out'' @ [newline] @
                [newline] @
                ''build main.o: cc main.c'' @ [newline] @
                [newline])
       \<and> NinjaFile_write True vstr (cc_file str_obj v1_5 b cc_command) =
           Inr (comment_tmpl b @ [newline] @ [newline] @
                ''rule cc'' @ [newline] @
                ''  command = cmd /s /c '' @ [CHR 0x22] @ ''cc && -c && $$in && -o && $$out'' @
                  [CHR 0x22] @ [newline] @
                [newline] @
                ''build main.o: cc main.c'' @ [newline] @
                [newline])
       \<and> NinjaFile_write w vstr (cc_file str_obj v1_5 b cc_command_line) =
           Inr (comment_tmpl b @ [newline] @ [newline] @
                ''rule cc'' @ [newline] @
                ''  command = cc -c '' @ [CHR 0x27] @ ''$$in'' @ [CHR 0x27] @ '' -o '' @
                  [CHR 0x27] @ ''$$out'' @ [CHR 0x27] @ [newline] @
                [newline] @
                ''build main.o: cc main.c'' @ [newline] @
                [newline])"
proof -
  have flat: "cc_file str_obj v1_5 b cc_command =
      (NinjaFile_init b)\<lparr>nf_rules :=
        [(''cc'', \<lparr>r_command = VCommands \<lparr>commands =
                      [Scalar (Str ''cc''), Scalar (Str ''-c''), Scalar (Str ''$in''),
                       Scalar (Str ''-o''), Scalar (Str ''$out'')], environ = []\<rparr>,
                   r_depfile = None, r_deps = None, r_generator = False, r_pool = None,
                   r_restat = False\<rparr>)],
        nf_build_outputs := {Str ''main.o''},
        nf_builds :=
          [\<lparr>b_outputs = [Str ''main.o''], b_rule = ''cc'', b_inputs = [Str ''main.c''],
            b_implicit = [], b_order_only = [], b_variables = []\<rparr>]\<rparr>"
    unfolding cc_file_def cc_file_flat
    by (simp add: cc_build has_rule_def NinjaFile_init_def)
  have nested: "cc_file str_obj v1_5 b cc_command_line =
      (NinjaFile_init b)\<lparr>nf_rules :=
        [(''cc'', \<lparr>r_command = VList [Str ''cc'', Str ''-c'', Str ''$in'', Str ''-o'', Str ''$out''],
                   r_depfile = None, r_deps = None, r_generator = False, r_pool = None,
                   r_restat = False\<rparr>)],
        nf_build_outputs := {Str ''main.o''},
        nf_builds :=
          [\<lparr>b_outputs = [Str ''main.o''], b_rule = ''cc'', b_inputs = [Str ''main.c''],
            b_implicit = [], b_order_only = [], b_variables = []\<rparr>]\<rparr>"
    unfolding cc_file_def cc_file_nested
    by (simp add: cc_build has_rule_def NinjaFile_init_def)
  have declared: "fst (rule v1_5 (NinjaFile_init b) ''cc'' cc_command None None False None False)
                    = Inr ()"
    by (simp add: cc_file_flat)
  have edge: "fst (build str_obj
                     (snd (rule v1_5 (NinjaFile_init b) ''cc'' cc_command None None False None
                             False))
                     [Str ''main.o''] ''cc'' [Str ''main.c''] [] [] []) = Inr ()"
    unfolding cc_file_flat
    by (simp add: cc_build has_rule_def NinjaFile_init_def)
  have written:
    "NinjaFile_write False vstr (cc_file str_obj v1_5 b cc_command) =
           Inr (comment_tmpl b @ [newline] @ [newline] @
                ''rule cc'' @ [newline] @
                ''  command = cc && -c && $$in && -o && $$out'' @ [newline] @
                [newline] @
                ''build main.o: cc main.c'' @ [newline] @
                [newline])
       \<and> NinjaFile_write True vstr (cc_file str_obj v1_5 b cc_command) =
           Inr (comment_tmpl b @ [newline] @ [newline] @
                ''rule cc'' @ [newline] @
                ''  command = cmd /s /c '' @ [CHR 0x22] @ ''cc && -c && $$in && -o && $$out'' @
                  [CHR 0x22] @ [newline] @
                [newline] @
                ''build main.o: cc main.c'' @ [newline] @
                [newline])
       \<and> NinjaFile_write w vstr (cc_file str_obj v1_5 b cc_command_line) =
           Inr (comment_tmpl b @ [newline] @ [newline] @
                ''rule cc'' @ [newline] @
                ''  command = cc -c '' @ [CHR 0x27] @ ''$$in'' @ [CHR 0x27] @ '' -o '' @
                  [CHR 0x27] @ ''$$out'' @ [CHR 0x27] @ [newline] @
                [newline] @
                ''build main.o: cc main.c'' @ [newline] @
                [newline])"
    by (simp add: flat nested NinjaFile_write_def write_section_def NinjaFile_init_def bindE_def
        write_rule_flat write_rule_nested write_build_main dquote_def squote_def)
  from declared edge written show ?thesis by blast
qed

theorem cc_scenario_output_witness:
  "NinjaFile_write False (\<lambda>n. ''1.5'') (cc_file raising_str (15 :: nat) ''build.bfg'' cc_command) =
     Inr (''# Do not edit this file! It was automatically generated by bfg9000.'' @ [newline] @
          ''# Instead, you should edit the source file that created this:'' @ [newline] @
          ''# build.bfg'' @ [newline] @
          [newline] @
          ''rule cc'' @ [newline] @
          ''  command = cc && -c && $$in && -o && $$out'' @ [newline] @
          [newline] @
          ''build main.o: cc main.c'' @ [newline] @
          [newline])"
  using cc_scenario_output [of "15 :: nat" "''build.bfg''" raising_str "\<lambda>n. ''1.5''"]
  by (simp add: comment_tmpl_def)

end
